theory Spec2Isabelle
  imports Main
begin

section \<open>The session lifecycle manager of learn\_path\<close>

text \<open>
  The development embeds \<^verbatim>\<open>frontend/src/utils/sessionManager.ts\<close>: the class
  \<^verbatim>\<open>SessionManager\<close>, the activity handler registered on the document, and the
  two interceptors of the API client that call \<^verbatim>\<open>trackActivity\<close>.

  Conventions of the embedding.
  \<^item> Every call of \<^verbatim>\<open>Date.now()\<close> is an argument of the function that makes it, in the
    order of the calls: a function that reads the clock twice takes two readings.
  \<^item> A number is the integer whose value the double has (the time fields are epoch
    milliseconds). Comparison of two such numbers is exact. A difference, and its
    quotient by 60000 rounded down, are the integer ones while the difference stays
    below \<open>2^53\<close> in magnitude; beyond that the double arithmetic of the code may
    round, and the embedding gives the result as \<open>Inexact\<close>, a number it does not
    determine. \<^verbatim>\<open>NaN\<close>, which arithmetic on \<^verbatim>\<open>undefined\<close> yields, is a value of its
    own.
  \<^item> A property that an object does not have reads as \<^verbatim>\<open>undefined\<close>: \<open>None\<close>.
  \<^item> An exception is an outcome of its own, \<open>Thrown\<close>, carrying the state reached
    when it was raised.
  \<^item> \<^verbatim>\<open>console.log\<close> and \<^verbatim>\<open>console.error\<close> print only; what is kept of them is
    the evaluation of their arguments, where it can throw.
\<close>

subsection \<open>Values\<close>

text \<open>JSON values: what the \<^verbatim>\<open>user\<close> payload is made of.\<close>

datatype jsval =
    JNull
  | JBool bool
  | JNum int
  | JStr string
  | JArr "jsval list"
  | JObj "(string \<times> jsval) list"

text \<open>
  \<^verbatim>\<open>interface SessionData { user: any; loginTime: number; lastActivity: number;
  expiresAt: number }\<close>, as \<^verbatim>\<open>JSON.parse\<close> may deliver it: every property may be
  missing (\<open>None\<close>), and a time field that is present is an integer.
\<close>

record SessionData =
  user :: "jsval option"
  loginTime :: "int option"
  lastActivity :: "int option"
  expiresAt :: "int option"

text \<open>
  What \<^verbatim>\<open>JSON.parse\<close> returns for the stored text: \<^verbatim>\<open>null\<close>, a scalar, an array,
  or an object, the last seen through the interface above. \<open>DNull\<close> is also the
  \<^verbatim>\<open>null\<close> that \<^verbatim>\<open>getSession\<close> returns for an absent session.
\<close>

datatype decoded =
    DNull
  | DBool bool
  | DNum int
  | DStr string
  | DArr "jsval list"
  | DObj SessionData

text \<open>
  The text held in \<^verbatim>\<open>localStorage\<close> under \<^verbatim>\<open>SESSION_KEY\<close>. The code observes a
  stored text in two ways only: its truthiness and the result of \<^verbatim>\<open>JSON.parse\<close>. So a
  text is the empty string (falsy, and not JSON), a non-empty text that
  \<^verbatim>\<open>JSON.parse\<close> rejects, or a text that encodes a value.
\<close>

datatype payload = Empty | Malformed | Encoded decoded

datatype exn = SyntaxError | TypeError

datatype jsnum = NaN | Num int | Inexact

subsection \<open>The manager's state\<close>

text \<open>
  \<open>store\<close> is the entry of \<^verbatim>\<open>localStorage\<close> under \<^verbatim>\<open>SESSION_KEY\<close> (\<open>None\<close>: no
  entry). \<open>activityTimer\<close> is the pending timeout the field of that name refers to:
  \<open>Some d\<close> when a timeout is pending and due at \<open>d\<close>, \<open>None\<close> when none is pending.
  \<open>onSessionExpired\<close> is the registered callback, named by a number. \<open>fired\<close> logs
  the invocations of the callback, oldest first; the code has no such field, it is
  kept to count them. What the callback does when invoked is the host's and is not
  part of the embedding.
\<close>

record manager =
  store :: "payload option"
  activityTimer :: "int option"
  onSessionExpired :: "nat option"
  fired :: "nat list"

datatype 'a outcome = Returned 'a manager | Thrown exn manager

fun state_of :: "'a outcome \<Rightarrow> manager" where
  "state_of (Returned v s) = s"
| "state_of (Thrown e s) = s"

definition TIMEOUT_DURATION :: int where
  "TIMEOUT_DURATION = 15 * 60 * 1000"

definition CHECK_INTERVAL :: int where
  "CHECK_INTERVAL = 60000"

subsection \<open>The codec and the coercions of the language\<close>

definition JSON_stringify :: "decoded \<Rightarrow> payload" where
  "JSON_stringify v = Encoded v"

fun JSON_parse :: "payload \<Rightarrow> exn + decoded" where
  "JSON_parse Empty = Inl SyntaxError"
| "JSON_parse Malformed = Inl SyntaxError"
| "JSON_parse (Encoded v) = Inr v"

text \<open>Truthiness of a value (\<^verbatim>\<open>!session\<close>, \<^verbatim>\<open>x || null\<close>).\<close>

fun truthy :: "decoded \<Rightarrow> bool" where
  "truthy DNull = False"
| "truthy (DBool b) = b"
| "truthy (DNum n) = (n \<noteq> 0)"
| "truthy (DStr t) = (t \<noteq> [])"
| "truthy (DArr xs) = True"
| "truthy (DObj r) = True"

fun truthy_val :: "jsval \<Rightarrow> bool" where
  "truthy_val JNull = False"
| "truthy_val (JBool b) = b"
| "truthy_val (JNum n) = (n \<noteq> 0)"
| "truthy_val (JStr t) = (t \<noteq> [])"
| "truthy_val (JArr xs) = True"
| "truthy_val (JObj fs) = True"

text \<open>
  Reading \<^verbatim>\<open>v.expiresAt\<close>: a \<^verbatim>\<open>TypeError\<close> on \<^verbatim>\<open>null\<close>, \<^verbatim>\<open>undefined\<close> on a scalar
  or an array, the field on an object.
\<close>

fun get_expiresAt :: "decoded \<Rightarrow> exn + int option" where
  "get_expiresAt DNull = Inl TypeError"
| "get_expiresAt (DObj r) = Inr (expiresAt r)"
| "get_expiresAt _ = Inr None"

text \<open>\<^verbatim>\<open>now > x\<close>: false when \<open>x\<close> is \<^verbatim>\<open>undefined\<close> (it converts to \<^verbatim>\<open>NaN\<close>).\<close>

fun js_gt :: "int \<Rightarrow> int option \<Rightarrow> bool" where
  "js_gt now None = False"
| "js_gt now (Some e) = (now > e)"

text \<open>
  The magnitudes below which every integer is a double, so that a sum or difference
  of that size is computed without rounding.
\<close>

definition exact :: "int \<Rightarrow> bool" where
  "exact x = (\<bar>x\<bar> < 2 ^ 53)"

text \<open>
  \<^verbatim>\<open>x - now\<close>: \<^verbatim>\<open>NaN\<close> when \<open>x\<close> is \<^verbatim>\<open>undefined\<close>; the integer difference when that
  is below \<open>2^53\<close> in magnitude, where the subtraction of doubles does not round.
\<close>

fun js_minus :: "int option \<Rightarrow> int \<Rightarrow> jsnum" where
  "js_minus None now = NaN"
| "js_minus (Some e) now = (if exact (e - now) then Num (e - now) else Inexact)"

text \<open>
  \<^verbatim>\<open>Math.floor(remaining / 60000)\<close>. For an integer \<open>r\<close> below \<open>2^53\<close> in magnitude
  the quotient is below \<open>2^38\<close>, where doubles are at most \<open>2^-15\<close> apart; a quotient
  that is not an integer is at least \<open>1/60000\<close>, more than \<open>2^-16\<close>, away from the
  next integer, so the rounded quotient does not reach it and the floor of the double
  is the integer quotient rounded down.
\<close>

fun floor_minutes :: "jsnum \<Rightarrow> jsnum" where
  "floor_minutes NaN = NaN"
| "floor_minutes Inexact = Inexact"
| "floor_minutes (Num r) = (if exact r then Num (r div 60000) else Inexact)"

text \<open>\<^verbatim>\<open>Math.max(0, m)\<close>.\<close>

fun max0 :: "jsnum \<Rightarrow> jsnum" where
  "max0 NaN = NaN"
| "max0 Inexact = Inexact"
| "max0 (Num m) = Num (max 0 m)"

subsection \<open>SessionManager\<close>

definition stopActivityTimer :: "manager \<Rightarrow> manager" where
  "stopActivityTimer s =
     (if activityTimer s \<noteq> None then s\<lparr>activityTimer := None\<rparr> else s)"

text \<open>
  \<^verbatim>\<open>startActivityTimer\<close> cancels the pending timeout and arms one for 60000 ms
  later; \<open>now\<close> is the time of the call of \<^verbatim>\<open>setTimeout\<close>.
\<close>

definition startActivityTimer :: "int \<Rightarrow> manager \<Rightarrow> manager" where
  "startActivityTimer now s =
     (stopActivityTimer s)\<lparr>activityTimer := Some (now + CHECK_INTERVAL)\<rparr>"

definition clearSession :: "manager \<Rightarrow> manager" where
  "clearSession s = stopActivityTimer (s\<lparr>store := None\<rparr>)"

text \<open>
  \<^verbatim>\<open>user.username\<close> in the last statement of \<^verbatim>\<open>saveSession\<close> throws on
  \<^verbatim>\<open>undefined\<close> and on \<^verbatim>\<open>null\<close>.
\<close>

fun has_properties :: "jsval option \<Rightarrow> bool" where
  "has_properties None = False"
| "has_properties (Some JNull) = False"
| "has_properties (Some _) = True"

definition saveSession :: "int \<Rightarrow> jsval option \<Rightarrow> manager \<Rightarrow> unit outcome" where
  "saveSession now u s =
     (let sessionData = \<lparr>user = u, loginTime = Some now, lastActivity = Some now,
                          expiresAt = Some (now + TIMEOUT_DURATION)\<rparr>;
          s1 = s\<lparr>store := Some (JSON_stringify (DObj sessionData))\<rparr>;
          s2 = startActivityTimer now s1
      in if has_properties u then Returned () s2 else Thrown TypeError s2)"

text \<open>
  The body of the \<^verbatim>\<open>try\<close> block of \<^verbatim>\<open>getSession\<close>. \<^verbatim>\<open>!sessionStr\<close> holds of
  \<^verbatim>\<open>null\<close> (no entry) and of the empty string.
\<close>

definition getSession_try :: "int \<Rightarrow> manager \<Rightarrow> decoded outcome" where
  "getSession_try now s =
     (case store s of
        None \<Rightarrow> Returned DNull s
      | Some sessionStr \<Rightarrow>
          if sessionStr = Empty then Returned DNull s
          else
            (case JSON_parse sessionStr of
               Inl e \<Rightarrow> Thrown e s
             | Inr sessionData \<Rightarrow>
                 (case get_expiresAt sessionData of
                    Inl e \<Rightarrow> Thrown e s
                  | Inr x \<Rightarrow>
                      if js_gt now x then Returned DNull (clearSession s)
                      else Returned sessionData s)))"

text \<open>\<^verbatim>\<open>getSession\<close>: the \<^verbatim>\<open>catch\<close> clause clears the session and returns \<^verbatim>\<open>null\<close>.\<close>

definition getSession :: "int \<Rightarrow> manager \<Rightarrow> decoded outcome" where
  "getSession now s =
     (case getSession_try now s of
        Returned v s1 \<Rightarrow> Returned v s1
      | Thrown e s1 \<Rightarrow> Returned DNull (clearSession s1))"

text \<open>
  The two assignments of \<^verbatim>\<open>updateActivity\<close>. The module is strict code, so
  creating a property on a scalar throws. On an array the assignments succeed, and
  \<^verbatim>\<open>JSON.stringify\<close> then leaves the two properties out: what is written back encodes
  the array as it was.
\<close>

fun assign_activity :: "int \<Rightarrow> decoded \<Rightarrow> exn + decoded" where
  "assign_activity now (DObj r) =
     Inr (DObj (r\<lparr>lastActivity := Some now, expiresAt := Some (now + TIMEOUT_DURATION)\<rparr>))"
| "assign_activity now (DArr xs) = Inr (DArr xs)"
| "assign_activity now _ = Inl TypeError"

definition updateActivity :: "int \<Rightarrow> int \<Rightarrow> manager \<Rightarrow> unit outcome" where
  "updateActivity now1 now2 s =
     (case getSession now1 s of
        Thrown e s1 \<Rightarrow> Thrown e s1
      | Returned sessionData s1 \<Rightarrow>
          if \<not> truthy sessionData then Returned () s1
          else
            (case assign_activity now2 sessionData of
               Inl e \<Rightarrow> Thrown e s1
             | Inr sessionData' \<Rightarrow>
                 Returned ()
                   (startActivityTimer now2
                      (s1\<lparr>store := Some (JSON_stringify sessionData')\<rparr>))))"

definition isLoggedIn :: "int \<Rightarrow> manager \<Rightarrow> bool outcome" where
  "isLoggedIn now s =
     (case getSession now s of
        Thrown e s1 \<Rightarrow> Thrown e s1
      | Returned session s1 \<Rightarrow> Returned (session \<noteq> DNull) s1)"

text \<open>\<^verbatim>\<open>session?.user\<close>: \<^verbatim>\<open>undefined\<close> unless the session is an object with the property.\<close>

fun get_user :: "decoded \<Rightarrow> jsval option" where
  "get_user (DObj r) = user r"
| "get_user _ = None"

text \<open>\<^verbatim>\<open>x || null\<close>.\<close>

fun or_null :: "jsval option \<Rightarrow> jsval" where
  "or_null None = JNull"
| "or_null (Some v) = (if truthy_val v then v else JNull)"

definition getCurrentUser :: "int \<Rightarrow> manager \<Rightarrow> jsval outcome" where
  "getCurrentUser now s =
     (case getSession now s of
        Thrown e s1 \<Rightarrow> Thrown e s1
      | Returned session s1 \<Rightarrow> Returned (or_null (get_user session)) s1)"

definition setOnSessionExpired :: "nat \<Rightarrow> manager \<Rightarrow> manager" where
  "setOnSessionExpired callback s = s\<lparr>onSessionExpired := Some callback\<rparr>"

text \<open>\<^verbatim>\<open>if (this.onSessionExpired) { this.onSessionExpired() }\<close>.\<close>

definition invoke_callback :: "manager \<Rightarrow> manager" where
  "invoke_callback s =
     (case onSessionExpired s of
        None \<Rightarrow> s
      | Some callback \<Rightarrow> s\<lparr>fired := fired s @ [callback]\<rparr>)"

text \<open>
  The function that \<^verbatim>\<open>startActivityTimer\<close> hands to \<^verbatim>\<open>setTimeout\<close>. It reads the
  clock twice: inside \<^verbatim>\<open>getSession\<close> (\<open>now1\<close>) and for its own comparison (\<open>now2\<close>).
\<close>

definition timerCallback :: "int \<Rightarrow> int \<Rightarrow> manager \<Rightarrow> unit outcome" where
  "timerCallback now1 now2 s =
     (case getSession now1 s of
        Thrown e s1 \<Rightarrow> Thrown e s1
      | Returned session s1 \<Rightarrow>
          if \<not> truthy session then Returned () s1
          else
            (case get_expiresAt session of
               Inl e \<Rightarrow> Thrown e s1
             | Inr x \<Rightarrow>
                 if js_gt now2 x then Returned () (invoke_callback (clearSession s1))
                 else Returned () (startActivityTimer now2 s1)))"

definition getTimeRemaining :: "int \<Rightarrow> int \<Rightarrow> manager \<Rightarrow> jsnum outcome" where
  "getTimeRemaining now1 now2 s =
     (case getSession now1 s of
        Thrown e s1 \<Rightarrow> Thrown e s1
      | Returned session s1 \<Rightarrow>
          if \<not> truthy session then Returned (Num 0) s1
          else
            (case get_expiresAt session of
               Inl e \<Rightarrow> Thrown e s1
             | Inr x \<Rightarrow> Returned (max0 (floor_minutes (js_minus x now2))) s1))"

definition extendSession :: "int \<Rightarrow> int \<Rightarrow> manager \<Rightarrow> unit outcome" where
  "extendSession now1 now2 s = updateActivity now1 now2 s"

subsection \<open>The event loop\<close>

text \<open>
  A pending timeout fires: the timeout is no longer pending, and the callback runs
  with its two clock readings.
\<close>

definition timer_fires :: "int \<Rightarrow> int \<Rightarrow> manager \<Rightarrow> manager" where
  "timer_fires now1 now2 s =
     (case activityTimer s of
        None \<Rightarrow> s
      | Some d \<Rightarrow> state_of (timerCallback now1 now2 (s\<lparr>activityTimer := None\<rparr>)))"

lemma timerCallback_timer:
  assumes "activityTimer s = None"
  shows "activityTimer (state_of (timerCallback now1 now2 s)) = None
       \<or> activityTimer (state_of (timerCallback now1 now2 s)) = Some (now2 + CHECK_INTERVAL)"
  using assms
  by (auto simp: timerCallback_def getSession_def getSession_try_def clearSession_def
      stopActivityTimer_def startActivityTimer_def invoke_callback_def
      split: option.splits sum.splits if_splits)

text \<open>
  The event loop while the host is idle, up to the time \<open>t\<close>: every timeout that
  falls due fires, \<open>late\<close> milliseconds after its due time (a timeout never fires
  early), and both clock readings of its callback are the time at which it fires.
\<close>

function run_until :: "nat \<Rightarrow> int \<Rightarrow> manager \<Rightarrow> manager" where
  "run_until late t s =
     (case activityTimer s of
        None \<Rightarrow> s
      | Some d \<Rightarrow>
          if d + int late \<le> t
          then run_until late t (timer_fires (d + int late) (d + int late) s)
          else s)"
  by pat_completeness auto
termination
proof (relation "measure (\<lambda>(late, t, s). case activityTimer s of None \<Rightarrow> 0 | Some d \<Rightarrow> nat (t - d + 1))")
  show "wf (measure (\<lambda>(late, t, s). case activityTimer s of None \<Rightarrow> 0 | Some d \<Rightarrow> nat (t - d + 1)))"
    by simp
next
  fix late :: nat and t :: int and s :: manager and d :: int
  assume pending: "activityTimer s = Some d" and due: "d + int late \<le> t"
  let ?at = "d + int late"
  have none: "activityTimer (s\<lparr>activityTimer := None\<rparr>) = None"
    by simp
  have after: "timer_fires ?at ?at s = state_of (timerCallback ?at ?at (s\<lparr>activityTimer := None\<rparr>))"
    using pending by (simp add: timer_fires_def)
  from timerCallback_timer [OF none, of ?at ?at]
  have "activityTimer (timer_fires ?at ?at s) = None
      \<or> activityTimer (timer_fires ?at ?at s) = Some (?at + CHECK_INTERVAL)"
    by (simp only: after)
  then show "((late, t, timer_fires ?at ?at s), (late, t, s))
      \<in> measure (\<lambda>(late, t, s). case activityTimer s of None \<Rightarrow> 0 | Some d \<Rightarrow> nat (t - d + 1))"
    using pending due by (auto simp: CHECK_INTERVAL_def)
qed

subsection \<open>The activity tracker and the API client\<close>

text \<open>
  \<open>mgr\<close> is the singleton \<^verbatim>\<open>sessionManager\<close>, \<open>lastActivityTime\<close> the variable of
  that name. \<open>reached\<close> counts the calls of \<^verbatim>\<open>updateActivity\<close> made through
  \<^verbatim>\<open>trackActivity\<close>; the code has no such variable, it is kept to state the bound.
\<close>

record tracker =
  mgr :: manager
  lastActivityTime :: int
  reached :: nat

definition throttleDelay :: int where
  "throttleDelay = 30000"

definition trackActivity :: "int \<Rightarrow> int \<Rightarrow> tracker \<Rightarrow> exn option \<times> tracker" where
  "trackActivity now1 now2 w =
     (case updateActivity now1 now2 (mgr w) of
        Returned v s \<Rightarrow> (None, w\<lparr>mgr := s, reached := reached w + 1\<rparr>)
      | Thrown e s \<Rightarrow> (Some e, w\<lparr>mgr := s, reached := reached w + 1\<rparr>))"

text \<open>
  \<^verbatim>\<open>handleActivity\<close>: \<open>now\<close> is its own clock reading, \<open>now1\<close> and \<open>now2\<close> are those
  of \<^verbatim>\<open>updateActivity\<close>. An exception of \<^verbatim>\<open>trackActivity\<close> leaves the handler before
  the assignment to \<^verbatim>\<open>lastActivityTime\<close>.
\<close>

definition handleActivity :: "int \<Rightarrow> int \<Rightarrow> int \<Rightarrow> tracker \<Rightarrow> exn option \<times> tracker" where
  "handleActivity now now1 now2 w =
     (if now - lastActivityTime w > throttleDelay then
        (case trackActivity now1 now2 w of
           (None, w1) \<Rightarrow> (None, w1\<lparr>lastActivityTime := now\<rparr>)
         | (Some e, w1) \<Rightarrow> (Some e, w1))
      else (None, w))"

text \<open>
  The request interceptor and the response interceptor of the API client (the
  handler of a successful response): each calls \<^verbatim>\<open>trackActivity()\<close> first. What the
  request interceptor does next, reading the token and setting a header, touches
  neither the session entry nor the manager.
\<close>

definition request_interceptor :: "int \<Rightarrow> int \<Rightarrow> tracker \<Rightarrow> exn option \<times> tracker" where
  "request_interceptor now1 now2 w = trackActivity now1 now2 w"

definition response_interceptor :: "int \<Rightarrow> int \<Rightarrow> tracker \<Rightarrow> exn option \<times> tracker" where
  "response_interceptor now1 now2 w = trackActivity now1 now2 w"

text \<open>
  An activity signal, with the clock readings taken while it is handled: an
  interaction event on the document, a request of the API client, a successful
  response.
\<close>

datatype signal =
    Interaction int int int
  | ApiRequest int int
  | ApiResponse int int

fun deliver :: "signal \<Rightarrow> tracker \<Rightarrow> tracker" where
  "deliver (Interaction now now1 now2) w = snd (handleActivity now now1 now2 w)"
| "deliver (ApiRequest now1 now2) w = snd (request_interceptor now1 now2 w)"
| "deliver (ApiResponse now1 now2) w = snd (response_interceptor now1 now2 w)"

fun deliver_all :: "signal list \<Rightarrow> tracker \<Rightarrow> tracker" where
  "deliver_all [] w = w"
| "deliver_all (sig # sigs) w = deliver_all sigs (deliver sig w)"

text \<open>The time at which a signal arrives: the first clock reading of its handler.\<close>

fun arrival :: "signal \<Rightarrow> int" where
  "arrival (Interaction now now1 now2) = now"
| "arrival (ApiRequest now1 now2) = now1"
| "arrival (ApiResponse now1 now2) = now1"

fun is_interaction :: "signal \<Rightarrow> bool" where
  "is_interaction (Interaction now now1 now2) = True"
| "is_interaction _ = False"

subsection \<open>States used as examples\<close>

text \<open>The state of a freshly loaded module over an empty store.\<close>

definition fresh :: manager where
  "fresh = \<lparr>store = None, activityTimer = None, onSessionExpired = None, fired = []\<rparr>"

definition holding :: "payload \<Rightarrow> manager" where
  "holding p = fresh\<lparr>store := Some p\<rparr>"

definition fresh_tracker :: "manager \<Rightarrow> tracker" where
  "fresh_tracker s = \<lparr>mgr = s, lastActivityTime = 0, reached = 0\<rparr>"


subsection \<open>Predicates of the properties\<close>

text \<open>The record held in the store, when the stored text encodes an object.\<close>

definition stored_record :: "manager \<Rightarrow> SessionData option" where
  "stored_record s =
     (case store s of
        Some (Encoded (DObj r)) \<Rightarrow> Some r
      | _ \<Rightarrow> None)"

text \<open>\<^verbatim>\<open>expiresAt == lastActivity + TIMEOUT_DURATION\<close>.\<close>

definition deadline_ok :: "SessionData \<Rightarrow> bool" where
  "deadline_ok r =
     (case (lastActivity r, expiresAt r) of
        (Some a, Some e) \<Rightarrow> e = a + TIMEOUT_DURATION
      | _ \<Rightarrow> False)"

text \<open>\<^verbatim>\<open>loginTime <= lastActivity <= expiresAt\<close>.\<close>

definition ordered :: "SessionData \<Rightarrow> bool" where
  "ordered r =
     (case (loginTime r, lastActivity r, expiresAt r) of
        (Some l, Some a, Some e) \<Rightarrow> l \<le> a \<and> a \<le> e
      | _ \<Rightarrow> False)"

text \<open>
  The values on which the assignments of \<^verbatim>\<open>updateActivity\<close> throw: the truthy
  scalars. \<open>holds_scalar\<close>: the stored text encodes one of them.
\<close>

fun unassignable :: "decoded \<Rightarrow> bool" where
  "unassignable (DBool b) = b"
| "unassignable (DNum n) = (n \<noteq> 0)"
| "unassignable (DStr t) = (t \<noteq> [])"
| "unassignable _ = False"

definition holds_scalar :: "manager \<Rightarrow> bool" where
  "holds_scalar s =
     (case store s of
        Some (Encoded d) \<Rightarrow> unassignable d
      | _ \<Rightarrow> False)"

text \<open>The number of signals of the API client in a sequence of signals.\<close>

definition api_signals :: "signal list \<Rightarrow> nat" where
  "api_signals sigs = length (filter (\<lambda>sig. \<not> is_interaction sig) sigs)"

subsection \<open>The scenario of an idle session\<close>

text \<open>
  The host registers callback 7 and logs in at 0 with \<^verbatim>\<open>{id: 1}\<close>; the event loop
  runs to 500000, where \<^verbatim>\<open>updateActivity()\<close> is called; the event loop runs on to
  1450000 with no further activity. \<open>late\<close> is the lateness of the timeouts.
\<close>

definition after_login :: manager where
  "after_login =
     state_of (saveSession 0 (Some (JObj [(''id'', JNum 1)])) (setOnSessionExpired 7 fresh))"

definition after_renewal :: "nat \<Rightarrow> manager" where
  "after_renewal late =
     state_of (updateActivity 500000 500000 (run_until late 500000 after_login))"

definition idle_until_read :: "nat \<Rightarrow> manager" where
  "idle_until_read late = run_until late 1450000 (after_renewal late)"

section \<open>Properties\<close>

subsection \<open>Helper facts\<close>

lemma clearSession_store: "store (clearSession s) = None"
  by (simp add: clearSession_def stopActivityTimer_def)

lemma clearSession_timer: "activityTimer (clearSession s) = None"
  by (simp add: clearSession_def stopActivityTimer_def)

lemma clearSession_fired: "fired (clearSession s) = fired s"
  by (simp add: clearSession_def stopActivityTimer_def)

lemma startActivityTimer_fields:
  "store (startActivityTimer now s) = store s"
  "fired (startActivityTimer now s) = fired s"
  "activityTimer (startActivityTimer now s) = Some (now + CHECK_INTERVAL)"
  by (simp_all add: startActivityTimer_def stopActivityTimer_def)

text \<open>What \<^verbatim>\<open>getSession\<close> can do: nothing, a purge, or the return of the decoded value.\<close>

lemma getSession_cases:
  "getSession now s = Returned DNull s
   \<or> getSession now s = Returned DNull (clearSession s)
   \<or> (\<exists>d. store s = Some (Encoded d) \<and> d \<noteq> DNull \<and> getSession now s = Returned d s)"
proof (cases "store s")
  case None
  then show ?thesis by (simp add: getSession_def getSession_try_def)
next
  case (Some p)
  show ?thesis
  proof (cases p)
    case Empty
    with Some show ?thesis by (simp add: getSession_def getSession_try_def)
  next
    case Malformed
    with Some show ?thesis by (simp add: getSession_def getSession_try_def)
  next
    case (Encoded d)
    with Some show ?thesis
      by (cases d) (simp_all add: getSession_def getSession_try_def)
  qed
qed

lemma getSession_returns: "\<exists>v s'. getSession now s = Returned v s'"
  using getSession_cases [of now s] by blast

lemma getSession_expired:
  assumes "store s = Some (Encoded (DObj r))" and "expiresAt r = Some e" and "e < now"
  shows "getSession now s = Returned DNull (clearSession s)"
  using assms by (simp add: getSession_def getSession_try_def)

lemma getSession_valid:
  assumes "store s = Some (Encoded (DObj r))" and "\<not> js_gt now (expiresAt r)"
  shows "getSession now s = Returned (DObj r) s"
  using assms by (simp add: getSession_def getSession_try_def)

lemma getSession_no_entry:
  assumes "store s = None"
  shows "getSession now s = Returned DNull s"
  using assms by (simp add: getSession_def getSession_try_def)

lemma getSession_fired: "fired (state_of (getSession now s)) = fired s"
  using getSession_cases [of now s] by (auto simp: clearSession_fired)

lemma saveSession_state:
  "state_of (saveSession now u s) =
     startActivityTimer now
       (s\<lparr>store := Some (Encoded (DObj \<lparr>user = u, loginTime = Some now, lastActivity = Some now,
                                          expiresAt = Some (now + TIMEOUT_DURATION)\<rparr>))\<rparr>)"
  by (simp add: saveSession_def JSON_stringify_def Let_def)

lemma updateActivity_fired: "fired (state_of (updateActivity now1 now2 s)) = fired s"
  using getSession_cases [of now1 s]
  by (auto simp: updateActivity_def clearSession_fired startActivityTimer_fields
      split: sum.splits)

lemma updateActivity_valid:
  assumes "store s = Some (Encoded (DObj r))" and "\<not> js_gt now1 (expiresAt r)"
  shows "updateActivity now1 now2 s =
     Returned ()
       (startActivityTimer now2
          (s\<lparr>store := Some (Encoded (DObj (r\<lparr>lastActivity := Some now2,
                                               expiresAt := Some (now2 + TIMEOUT_DURATION)\<rparr>)))\<rparr>))"
  using assms by (simp add: updateActivity_def getSession_valid JSON_stringify_def)

lemma updateActivity_no_scalar:
  assumes "\<not> holds_scalar s"
  shows "\<exists>s'. updateActivity now1 now2 s = Returned () s' \<and> \<not> holds_scalar s'"
proof -
  consider (same) "getSession now1 s = Returned DNull s"
    | (cleared) "getSession now1 s = Returned DNull (clearSession s)"
    | (kept) d where "store s = Some (Encoded d)" "d \<noteq> DNull" "getSession now1 s = Returned d s"
    using getSession_cases [of now1 s] by blast
  then show ?thesis
  proof cases
    case same
    then show ?thesis using assms by (simp add: updateActivity_def)
  next
    case cleared
    then show ?thesis
      by (simp add: updateActivity_def holds_scalar_def clearSession_store)
  next
    case kept
    then show ?thesis using assms
      by (cases d) (auto simp: updateActivity_def holds_scalar_def startActivityTimer_def
          stopActivityTimer_def JSON_stringify_def)
  qed
qed

lemma handleActivity_dropped:
  assumes "now - lastActivityTime w \<le> throttleDelay"
  shows "handleActivity now now1 now2 w = (None, w)"
  using assms by (simp add: handleActivity_def)

lemma handleActivity_forwarded:
  assumes "now - lastActivityTime w > throttleDelay" and "\<not> holds_scalar (mgr w)"
  shows "lastActivityTime (snd (handleActivity now now1 now2 w)) = now
       \<and> reached (snd (handleActivity now now1 now2 w)) = reached w + 1
       \<and> \<not> holds_scalar (mgr (snd (handleActivity now now1 now2 w)))"
proof -
  obtain s' where "updateActivity now1 now2 (mgr w) = Returned () s'" "\<not> holds_scalar s'"
    using updateActivity_no_scalar [OF assms(2)] by blast
  then show ?thesis using assms(1)
    by (simp add: handleActivity_def trackActivity_def)
qed

lemma trackActivity_reached: "reached (snd (trackActivity now1 now2 w)) = reached w + 1"
  by (simp add: trackActivity_def split: outcome.splits)

lemma handleActivity_reached:
  "reached (snd (handleActivity now now1 now2 w)) =
     (if now - lastActivityTime w > throttleDelay then reached w + 1 else reached w)"
  by (simp add: handleActivity_def trackActivity_def split: outcome.splits)

lemma trackActivity_keeps:
  "lastActivityTime (snd (trackActivity now1 now2 w)) = lastActivityTime w"
  by (simp add: trackActivity_def split: outcome.splits)

lemma trackActivity_no_scalar:
  assumes "\<not> holds_scalar (mgr w)"
  shows "\<not> holds_scalar (mgr (snd (trackActivity now1 now2 w)))"
proof -
  obtain s' where "updateActivity now1 now2 (mgr w) = Returned () s'" "\<not> holds_scalar s'"
    using updateActivity_no_scalar [OF assms] by blast
  then show ?thesis by (simp add: trackActivity_def)
qed

text \<open>A signal of the API client is forwarded, and leaves the throttle as it was.\<close>

lemma deliver_api:
  assumes "\<not> is_interaction sig"
  shows "reached (deliver sig w) = reached w + 1
       \<and> lastActivityTime (deliver sig w) = lastActivityTime w
       \<and> (\<not> holds_scalar (mgr w) \<longrightarrow> \<not> holds_scalar (mgr (deliver sig w)))"
  using assms
  by (cases sig)
    (simp_all add: request_interceptor_def response_interceptor_def trackActivity_reached
      trackActivity_keeps trackActivity_no_scalar)

text \<open>
  While every signal arrives within the throttle delay of \<^verbatim>\<open>lastActivityTime\<close>, the
  calls are those of the API client.
\<close>

lemma deliver_all_throttled:
  assumes "\<forall>sig \<in> set sigs. arrival sig - lastActivityTime w \<le> throttleDelay"
  shows "reached (deliver_all sigs w) = reached w + api_signals sigs"
  using assms
proof (induction sigs arbitrary: w)
  case Nil
  then show ?case by (simp add: api_signals_def)
next
  case (Cons sig sigs)
  show ?case
  proof (cases "is_interaction sig")
    case True
    then obtain now now1 now2 where sig: "sig = Interaction now now1 now2"
      by (cases sig) auto
    with Cons.prems have "now - lastActivityTime w \<le> throttleDelay" by simp
    then have "deliver sig w = w"
      by (simp add: sig handleActivity_dropped)
    with Cons True show ?thesis by (simp add: api_signals_def)
  next
    case False
    from deliver_api [OF False, of w]
    have cnt: "reached (deliver sig w) = reached w + 1"
      and last: "lastActivityTime (deliver sig w) = lastActivityTime w" by simp_all
    have "reached (deliver_all sigs (deliver sig w)) = reached (deliver sig w) + api_signals sigs"
      using Cons.prems last by (intro Cons.IH) simp
    with cnt False show ?thesis by (simp add: api_signals_def)
  qed
qed

lemma throttle_signals:
  assumes "\<forall>sig \<in> set sigs. lo \<le> arrival sig \<and> arrival sig < lo + throttleDelay"
    and "\<not> holds_scalar (mgr w)"
  shows "reached (deliver_all sigs w) \<le> reached w + api_signals sigs + 1"
  using assms
proof (induction sigs arbitrary: w)
  case Nil
  then show ?case by simp
next
  case (Cons sig sigs)
  show ?case
  proof (cases "is_interaction sig")
    case False
    from deliver_api [OF False, of w] Cons.prems(2)
    have cnt: "reached (deliver sig w) = reached w + 1"
      and ok: "\<not> holds_scalar (mgr (deliver sig w))" by simp_all
    have "reached (deliver_all sigs (deliver sig w)) \<le> reached (deliver sig w) + api_signals sigs + 1"
      using Cons.prems(1) ok by (intro Cons.IH) simp_all
    with cnt False show ?thesis by (simp add: api_signals_def)
  next
    case True
    then obtain now now1 now2 where sig: "sig = Interaction now now1 now2"
      by (cases sig) auto
    from Cons.prems(1) sig have win: "lo \<le> now" "now < lo + throttleDelay" by auto
    show ?thesis
    proof (cases "now - lastActivityTime w > throttleDelay")
      case forward: True
      let ?w = "snd (handleActivity now now1 now2 w)"
      from handleActivity_forwarded [OF forward Cons.prems(2)]
      have last: "lastActivityTime ?w = now" and cnt: "reached ?w = reached w + 1" by simp_all
      have "\<forall>x \<in> set sigs. arrival x - lastActivityTime ?w \<le> throttleDelay"
        using Cons.prems(1) win last by auto
      then have "reached (deliver_all sigs ?w) = reached ?w + api_signals sigs"
        by (rule deliver_all_throttled)
      then show ?thesis using cnt True by (simp add: sig api_signals_def)
    next
      case False
      then have "deliver sig w = w" by (simp add: sig handleActivity_dropped)
      moreover have "reached (deliver_all sigs w) \<le> reached w + api_signals sigs + 1"
        using Cons.prems by (intro Cons.IH) simp_all
      ultimately show ?thesis using True by (simp add: api_signals_def)
    qed
  qed
qed

text \<open>
  When both clock readings of the timer's callback are the same millisecond, the
  callback never reaches its expiry branch: an expired record is purged by the
  \<^verbatim>\<open>getSession()\<close> on its first line, which then returns \<^verbatim>\<open>null\<close>.
\<close>

lemma timerCallback_same_reading:
  "fired (state_of (timerCallback now now s)) = fired s"
proof -
  consider (same) "getSession now s = Returned DNull s"
    | (cleared) "getSession now s = Returned DNull (clearSession s)"
    | (kept) d where "store s = Some (Encoded d)" "d \<noteq> DNull" "getSession now s = Returned d s"
    using getSession_cases [of now s] by blast
  then show ?thesis
  proof cases
    case same
    then show ?thesis by (simp add: timerCallback_def)
  next
    case cleared
    then show ?thesis by (simp add: timerCallback_def clearSession_fired)
  next
    case kept
    show ?thesis
    proof (cases d)
      case (DObj r)
      with kept have "\<not> js_gt now (expiresAt r)"
        by (auto simp: getSession_def getSession_try_def clearSession_def stopActivityTimer_def
            split: if_splits)
      with kept DObj show ?thesis
        by (simp add: timerCallback_def startActivityTimer_fields)
    qed (use kept in \<open>simp_all add: timerCallback_def startActivityTimer_fields\<close>)
  qed
qed

subsection \<open>C1: lazy expiry purge\<close>

text \<open>
  C1. Whenever the store holds a serialized record whose \<^verbatim>\<open>expiresAt\<close> is strictly
  before the clock reading of the call, \<^verbatim>\<open>getSession()\<close> returns \<^verbatim>\<open>null\<close> and leaves
  the store with no entry under the session key.
\<close>

theorem getSession_purges_expired:
  assumes "store s = Some (Encoded (DObj r))" and "expiresAt r = Some e" and "e < now"
  shows "getSession now s = Returned DNull (clearSession s) \<and> store (clearSession s) = None"
  using assms by (simp add: getSession_expired clearSession_store)

theorem getSession_purges_expired_witness:
  "getSession 1000
     (holding (Encoded (DObj \<lparr>user = Some (JObj [(''id'', JNum 1)]), loginTime = Some 0,
                               lastActivity = Some 0, expiresAt = Some 999\<rparr>)))
   = Returned DNull fresh"
  using getSession_purges_expired
    [of "holding (Encoded (DObj \<lparr>user = Some (JObj [(''id'', JNum 1)]), loginTime = Some 0,
                                   lastActivity = Some 0, expiresAt = Some 999\<rparr>))"
        "\<lparr>user = Some (JObj [(''id'', JNum 1)]), loginTime = Some 0,
          lastActivity = Some 0, expiresAt = Some 999\<rparr>" 999 1000]
  by (simp add: holding_def fresh_def clearSession_def stopActivityTimer_def)

subsection \<open>C2: corrupted store contents\<close>

text \<open>
  C2, as stated: for every stored payload that is unparseable JSON or a parseable
  object missing \<^verbatim>\<open>expiresAt\<close>, \<^verbatim>\<open>getSession()\<close> returns \<^verbatim>\<open>null\<close>, does not throw,
  and purges the stored value. The code does otherwise on two such payloads. The
  empty string is not JSON, and \<^verbatim>\<open>if (!sessionStr) return null\<close> returns before
  anything is removed: the entry stays. An object without \<^verbatim>\<open>expiresAt\<close> passes the
  expiry check, since \<^verbatim>\<open>now > undefined\<close> is false: it is returned as the session and
  stays in the store.
\<close>

theorem getSession_corruption_counterexample:
  "getSession 1000 (holding Empty) = Returned DNull (holding Empty)
   \<and> store (holding Empty) = Some Empty
   \<and> getSession 1000
        (holding (Encoded (DObj \<lparr>user = Some (JObj [(''id'', JNum 1)]), loginTime = Some 0,
                                  lastActivity = Some 0, expiresAt = None\<rparr>)))
     = Returned
         (DObj \<lparr>user = Some (JObj [(''id'', JNum 1)]), loginTime = Some 0,
                lastActivity = Some 0, expiresAt = None\<rparr>)
         (holding (Encoded (DObj \<lparr>user = Some (JObj [(''id'', JNum 1)]), loginTime = Some 0,
                                   lastActivity = Some 0, expiresAt = None\<rparr>)))"
  by (simp add: getSession_def getSession_try_def holding_def fresh_def)

text \<open>
  C2, amended. \<^verbatim>\<open>getSession()\<close> never throws. On a non-empty text that
  \<^verbatim>\<open>JSON.parse\<close> rejects it returns \<^verbatim>\<open>null\<close> and removes the entry. On the empty
  string it returns \<^verbatim>\<open>null\<close> and changes nothing. On an object without
  \<^verbatim>\<open>expiresAt\<close> it returns that object and changes nothing.
\<close>

theorem getSession_corruption:
  "(\<exists>v s'. getSession now s = Returned v s')
   \<and> (store s = Some Malformed \<longrightarrow>
        getSession now s = Returned DNull (clearSession s) \<and> store (clearSession s) = None)
   \<and> (store s = Some Empty \<longrightarrow> getSession now s = Returned DNull s)
   \<and> (store s = Some (Encoded (DObj r)) \<and> expiresAt r = None \<longrightarrow>
        getSession now s = Returned (DObj r) s)"
proof -
  have "store s = Some Malformed \<Longrightarrow> getSession now s = Returned DNull (clearSession s)"
    by (simp add: getSession_def getSession_try_def)
  moreover have "store s = Some Empty \<Longrightarrow> getSession now s = Returned DNull s"
    by (simp add: getSession_def getSession_try_def)
  moreover have "store s = Some (Encoded (DObj r)) \<Longrightarrow> expiresAt r = None
      \<Longrightarrow> getSession now s = Returned (DObj r) s"
    by (simp add: getSession_valid)
  ultimately show ?thesis
    using getSession_returns [of now s] clearSession_store [of s] by blast
qed

theorem getSession_corruption_witness:
  "getSession 1000 (holding Malformed) = Returned DNull fresh
   \<and> getSession 1000 (holding Empty) = Returned DNull (holding Empty)
   \<and> getSession 1000 (holding (Encoded (DObj \<lparr>user = None, loginTime = Some 0,
                                               lastActivity = Some 0, expiresAt = None\<rparr>)))
     = Returned (DObj \<lparr>user = None, loginTime = Some 0, lastActivity = Some 0, expiresAt = None\<rparr>)
         (holding (Encoded (DObj \<lparr>user = None, loginTime = Some 0,
                                   lastActivity = Some 0, expiresAt = None\<rparr>)))"
  using getSession_corruption [of 1000 "holding Malformed"]
    getSession_corruption [of 1000 "holding Empty"]
    getSession_corruption
      [of 1000 "holding (Encoded (DObj \<lparr>user = None, loginTime = Some 0,
                                          lastActivity = Some 0, expiresAt = None\<rparr>))"
          "\<lparr>user = None, loginTime = Some 0, lastActivity = Some 0, expiresAt = None\<rparr>"]
  by (simp add: holding_def fresh_def clearSession_def stopActivityTimer_def)

subsection \<open>C3: an explicit clear is silent\<close>

lemma timerCallback_fired:
  "fired (state_of (timerCallback now1 now2 s)) = fired s
   \<or> (store (state_of (timerCallback now1 now2 s)) = None
      \<and> (\<exists>callback. onSessionExpired s = Some callback
            \<and> fired (state_of (timerCallback now1 now2 s)) = fired s @ [callback]))"
proof -
  consider (same) "getSession now1 s = Returned DNull s"
    | (cleared) "getSession now1 s = Returned DNull (clearSession s)"
    | (kept) d where "store s = Some (Encoded d)" "d \<noteq> DNull" "getSession now1 s = Returned d s"
    using getSession_cases [of now1 s] by blast
  then show ?thesis
  proof cases
    case same
    then show ?thesis by (simp add: timerCallback_def)
  next
    case cleared
    then show ?thesis by (simp add: timerCallback_def clearSession_fired)
  next
    case kept
    then show ?thesis
      by (cases d)
        (auto simp: timerCallback_def startActivityTimer_fields invoke_callback_def
          clearSession_def stopActivityTimer_def split: option.splits)
  qed
qed

lemma saveSession_fired: "fired (state_of (saveSession now u s)) = fired s"
  by (simp add: saveSession_state startActivityTimer_fields)

lemma readers_fired:
  "fired (state_of (isLoggedIn now s)) = fired s"
  "fired (state_of (getCurrentUser now s)) = fired s"
  "fired (state_of (getTimeRemaining now1 now2 s)) = fired s"
proof -
  obtain v s' where got: "getSession now s = Returned v s'"
    using getSession_returns [of now s] by blast
  with getSession_fired [of now s] have same: "fired s' = fired s" by simp
  from got same show "fired (state_of (isLoggedIn now s)) = fired s"
    by (simp add: isLoggedIn_def)
  from got same show "fired (state_of (getCurrentUser now s)) = fired s"
    by (simp add: getCurrentUser_def)
  obtain v1 s1 where got1: "getSession now1 s = Returned v1 s1"
    using getSession_returns [of now1 s] by blast
  with getSession_fired [of now1 s] have "fired s1 = fired s" by simp
  with got1 show "fired (state_of (getTimeRemaining now1 now2 s)) = fired s"
    by (cases v1) (simp_all add: getTimeRemaining_def)
qed

lemma run_until_idle:
  assumes "activityTimer s = None"
  shows "run_until late t s = s"
  using assms by simp

text \<open>
  C3. The callback is invoked on timeout-driven clears only. \<^verbatim>\<open>clearSession()\<close>
  never invokes it, in any state; nor does any other operation the host calls. The
  callback of the timer invokes it only together with a clear. After
  \<^verbatim>\<open>saveSession(u)\<close> followed by \<^verbatim>\<open>clearSession()\<close>, \<^verbatim>\<open>isLoggedIn()\<close> is false, the
  callback has not been invoked, and no timeout is left that could invoke it later.
\<close>

theorem clearSession_never_notifies:
  "fired (clearSession s) = fired s
   \<and> isLoggedIn now' (clearSession (state_of (saveSession now u s)))
       = Returned False (clearSession (state_of (saveSession now u s)))
   \<and> fired (clearSession (state_of (saveSession now u s))) = fired s
   \<and> run_until late t (clearSession (state_of (saveSession now u s)))
       = clearSession (state_of (saveSession now u s))
   \<and> fired (state_of (saveSession now u s)) = fired s
   \<and> fired (state_of (getSession now s)) = fired s
   \<and> fired (state_of (updateActivity now1 now2 s)) = fired s
   \<and> fired (state_of (isLoggedIn now s)) = fired s
   \<and> fired (state_of (getCurrentUser now s)) = fired s
   \<and> fired (state_of (getTimeRemaining now1 now2 s)) = fired s
   \<and> fired (setOnSessionExpired callback s) = fired s
   \<and> (fired (state_of (timerCallback now1 now2 s)) = fired s
      \<or> store (state_of (timerCallback now1 now2 s)) = None)"
proof -
  let ?c = "clearSession (state_of (saveSession now u s))"
  have "isLoggedIn now' ?c = Returned False ?c"
    by (simp add: isLoggedIn_def getSession_no_entry clearSession_store)
  moreover have "fired ?c = fired s"
    by (simp add: clearSession_fired saveSession_fired)
  moreover have "run_until late t ?c = ?c"
    by (rule run_until_idle) (rule clearSession_timer)
  moreover have "fired (setOnSessionExpired callback s) = fired s"
    by (simp add: setOnSessionExpired_def)
  moreover have "fired (state_of (timerCallback now1 now2 s)) = fired s
      \<or> store (state_of (timerCallback now1 now2 s)) = None"
    using timerCallback_fired [of now1 now2 s] by auto
  ultimately show ?thesis
    using clearSession_fired [of s] saveSession_fired [of now u s] getSession_fired [of now s]
      updateActivity_fired [of now1 now2 s] readers_fired(1,2) [of now s]
      readers_fired(3) [of now1 now2 s]
    by blast
qed

subsection \<open>C4: the idle scenario\<close>

text \<open>
  The expiry branch of the timer's callback is entered only when the clock passes
  \<^verbatim>\<open>expiresAt\<close> between the two clock readings of one run of the callback.
\<close>

lemma timerCallback_notifies_only_in_race:
  assumes "fired (state_of (timerCallback now1 now2 s)) \<noteq> fired s"
  shows "\<exists>r e. store s = Some (Encoded (DObj r)) \<and> expiresAt r = Some e
           \<and> now1 \<le> e \<and> e < now2"
proof -
  consider (same) "getSession now1 s = Returned DNull s"
    | (cleared) "getSession now1 s = Returned DNull (clearSession s)"
    | (kept) d where "store s = Some (Encoded d)" "d \<noteq> DNull" "getSession now1 s = Returned d s"
    using getSession_cases [of now1 s] by blast
  then show ?thesis
  proof cases
    case same
    with assms show ?thesis by (simp add: timerCallback_def)
  next
    case cleared
    with assms show ?thesis by (simp add: timerCallback_def clearSession_fired)
  next
    case kept
    show ?thesis
    proof (cases d)
      case (DObj r)
      with kept have valid: "\<not> js_gt now1 (expiresAt r)"
        by (auto simp: getSession_def getSession_try_def clearSession_def stopActivityTimer_def
            split: if_splits)
      from assms kept DObj have "js_gt now2 (expiresAt r)"
        by (auto simp: timerCallback_def startActivityTimer_fields split: if_splits)
      with valid kept(1) DObj show ?thesis
        by (cases "expiresAt r") auto
    qed (use assms kept in \<open>auto simp: timerCallback_def startActivityTimer_fields split: if_splits\<close>)
  qed
qed

text \<open>So the event loop, whose callbacks read one time twice, never invokes it.\<close>

lemma run_until_never_notifies: "fired (run_until late t s) = fired s"
proof (induction late t s rule: run_until.induct)
  case (1 late t s)
  show ?case
  proof (cases "activityTimer s")
    case None
    then show ?thesis by simp
  next
    case (Some d)
    show ?thesis
    proof (cases "d + int late \<le> t")
      case True
      have "fired (timer_fires (d + int late) (d + int late) s) = fired s"
        using Some timerCallback_same_reading [of "d + int late" "s\<lparr>activityTimer := None\<rparr>"]
        by (simp add: timer_fires_def)
      moreover have "fired (run_until late t (timer_fires (d + int late) (d + int late) s))
          = fired (timer_fires (d + int late) (d + int late) s)"
        using "1.IH" [OF Some True] .
      ultimately show ?thesis
        using Some True by (subst run_until.simps) simp
    next
      case False
      with Some show ?thesis by simp
    qed
  qed
qed

text \<open>
  C4. In the trace \<^verbatim>\<open>saveSession({id:1})\<close> at 0, \<^verbatim>\<open>updateActivity()\<close> at 500000, no
  further activity, \<^verbatim>\<open>getSession()\<close> at 1450000, the stored \<^verbatim>\<open>expiresAt\<close> is 900000
  and then 1400000, and \<^verbatim>\<open>getSession()\<close> returns \<^verbatim>\<open>null\<close>, as the claim says. The
  claim says also that the callback is invoked exactly once. With timeouts that fire
  one millisecond late, the check of the timer at 1400015 finds the session expired,
  purges it in its \<^verbatim>\<open>getSession()\<close> and stops: the callback is not invoked, then or
  later. With timeouts that fire on time, the check at 1400000 finds the session
  valid, the read at 1450000 purges it and cancels the timeout, and the callback is
  not invoked either; nor is it when that read is left out and the timer runs on.
\<close>

theorem idle_scenario_callback_not_invoked:
  "stored_record after_login
     = Some \<lparr>user = Some (JObj [(''id'', JNum 1)]), loginTime = Some 0,
             lastActivity = Some 0, expiresAt = Some 900000\<rparr>
   \<and> stored_record (after_renewal 1)
     = Some \<lparr>user = Some (JObj [(''id'', JNum 1)]), loginTime = Some 0,
             lastActivity = Some 500000, expiresAt = Some 1400000\<rparr>
   \<and> run_until 1 1400014 (after_renewal 1)
     = \<lparr>store = Some (Encoded (DObj \<lparr>user = Some (JObj [(''id'', JNum 1)]), loginTime = Some 0,
                                      lastActivity = Some 500000, expiresAt = Some 1400000\<rparr>)),
        activityTimer = Some 1400014, onSessionExpired = Some 7, fired = []\<rparr>
   \<and> run_until 1 1400015 (after_renewal 1)
     = \<lparr>store = None, activityTimer = None, onSessionExpired = Some 7, fired = []\<rparr>
   \<and> getSession 1450000 (idle_until_read 1)
     = Returned DNull \<lparr>store = None, activityTimer = None, onSessionExpired = Some 7, fired = []\<rparr>
   \<and> fired (run_until 1 3000000 (state_of (getSession 1450000 (idle_until_read 1)))) = []
   \<and> idle_until_read 0
     = \<lparr>store = Some (Encoded (DObj \<lparr>user = Some (JObj [(''id'', JNum 1)]), loginTime = Some 0,
                                      lastActivity = Some 500000, expiresAt = Some 1400000\<rparr>)),
        activityTimer = Some 1460000, onSessionExpired = Some 7, fired = []\<rparr>
   \<and> getSession 1450000 (idle_until_read 0)
     = Returned DNull \<lparr>store = None, activityTimer = None, onSessionExpired = Some 7, fired = []\<rparr>
   \<and> fired (run_until 0 3000000 (state_of (getSession 1450000 (idle_until_read 0)))) = []
   \<and> fired (run_until 0 3000000 (after_renewal 0)) = []"
  by code_simp

subsection \<open>C5: the throttle\<close>

text \<open>
  C5, as stated: of the activity signals, API requests and responses included, that
  arrive within a window smaller than 30 seconds, at most one reaches
  \<^verbatim>\<open>updateActivity()\<close>. The interceptors of the API client call \<^verbatim>\<open>trackActivity()\<close>
  directly, outside the throttle: a request and its response, one millisecond
  apart, make two calls. And when the stored text encodes a truthy scalar,
  \<^verbatim>\<open>updateActivity()\<close> throws before \<^verbatim>\<open>lastActivityTime\<close> is assigned, so two
  interaction events one millisecond apart make two calls as well.
\<close>

theorem throttle_counterexample:
  "reached (deliver_all [ApiRequest 100000 100000, ApiResponse 100001 100001]
              (fresh_tracker fresh)) = 2
   \<and> reached (deliver_all [Interaction 100000 100000 100000, Interaction 100001 100001 100001]
                (fresh_tracker (holding (Encoded (DNum 5))))) = 2"
  by code_simp

text \<open>
  C5, amended. For every sequence of activity signals that arrive within a window
  smaller than 30 seconds, at most one interaction event reaches
  \<^verbatim>\<open>updateActivity()\<close>, provided the stored text does not encode a truthy scalar;
  every request and every successful response of the API client reaches it. So the
  calls number at most one more than the signals of the API client, and at most one
  when all signals are interaction events. An interaction event is forwarded only
  when \<^verbatim>\<open>now - lastActivityTime\<close> exceeds 30 seconds, and is dropped otherwise,
  changing nothing.
\<close>

theorem throttle_bound:
  assumes "\<forall>sig \<in> set sigs. lo \<le> arrival sig \<and> arrival sig < lo + throttleDelay"
    and "\<not> holds_scalar (mgr w)"
  shows "reached (deliver_all sigs w) \<le> reached w + api_signals sigs + 1
   \<and> reached (deliver (Interaction now now1 now2) v)
       = (if now - lastActivityTime v > throttleDelay then reached v + 1 else reached v)
   \<and> (now - lastActivityTime v \<le> throttleDelay \<longrightarrow> deliver (Interaction now now1 now2) v = v)
   \<and> reached (deliver (ApiRequest now1 now2) v) = reached v + 1
   \<and> reached (deliver (ApiResponse now1 now2) v) = reached v + 1"
proof -
  have "reached (deliver_all sigs w) \<le> reached w + api_signals sigs + 1"
    using assms by (rule throttle_signals)
  moreover have "reached (deliver (Interaction now now1 now2) v)
       = (if now - lastActivityTime v > throttleDelay then reached v + 1 else reached v)"
    by (simp add: handleActivity_reached)
  moreover have "now - lastActivityTime v \<le> throttleDelay \<longrightarrow> deliver (Interaction now now1 now2) v = v"
    by (simp add: handleActivity_dropped)
  moreover have "reached (deliver (ApiRequest now1 now2) v) = reached v + 1"
    by (simp add: request_interceptor_def trackActivity_reached)
  moreover have "reached (deliver (ApiResponse now1 now2) v) = reached v + 1"
    by (simp add: response_interceptor_def trackActivity_reached)
  ultimately show ?thesis by simp
qed

theorem throttle_bound_witness:
  "reached (deliver_all
      [Interaction 1000000 1000000 1000000, Interaction 1000500 1000500 1000500,
       Interaction 1029999 1029999 1029999]
      (fresh_tracker after_login)) \<le> 1
   \<and> reached (deliver_all
      [Interaction 1000000 1000000 1000000, ApiRequest 1000100 1000100,
       Interaction 1000500 1000500 1000500, ApiResponse 1000600 1000600]
      (fresh_tracker after_login)) \<le> 3
   \<and> deliver (Interaction 20000 20000 20000) (fresh_tracker after_login) = fresh_tracker after_login"
proof -
  let ?events = "[Interaction 1000000 1000000 1000000, Interaction 1000500 1000500 1000500,
       Interaction 1029999 1029999 1029999]"
  let ?mixed = "[Interaction 1000000 1000000 1000000, ApiRequest 1000100 1000100,
       Interaction 1000500 1000500 1000500, ApiResponse 1000600 1000600]"
  let ?w = "fresh_tracker after_login"
  have events: "\<forall>sig \<in> set ?events. 1000000 \<le> arrival sig \<and> arrival sig < 1000000 + throttleDelay"
    by (simp add: throttleDelay_def)
  have mixed: "\<forall>sig \<in> set ?mixed. 1000000 \<le> arrival sig \<and> arrival sig < 1000000 + throttleDelay"
    by (simp add: throttleDelay_def)
  have stored: "\<not> holds_scalar (mgr ?w)"
    by (simp add: fresh_tracker_def after_login_def saveSession_state startActivityTimer_fields
        holds_scalar_def)
  have early: "20000 - lastActivityTime ?w \<le> throttleDelay"
    by (simp add: fresh_tracker_def throttleDelay_def)
  have none: "reached ?w + api_signals ?events + 1 = 1"
    by (simp add: fresh_tracker_def api_signals_def)
  have two: "reached ?w + api_signals ?mixed + 1 = 3"
    by (simp add: fresh_tracker_def api_signals_def)
  from throttle_bound [OF events stored, where now = 20000 and ?now1.0 = 20000
      and ?now2.0 = 20000 and v = ?w]
  have "reached (deliver_all ?events ?w) \<le> reached ?w + api_signals ?events + 1"
    and "20000 - lastActivityTime ?w \<le> throttleDelay
      \<longrightarrow> deliver (Interaction 20000 20000 20000) ?w = ?w"
    by blast+
  moreover from throttle_bound [OF mixed stored, where now = 20000 and ?now1.0 = 20000
      and ?now2.0 = 20000 and v = ?w]
  have "reached (deliver_all ?mixed ?w) \<le> reached ?w + api_signals ?mixed + 1"
    by blast
  ultimately show ?thesis
    using early by (simp only: none two)
qed

subsection \<open>C6: the record after a write\<close>

text \<open>
  C6, as stated: after every write by \<^verbatim>\<open>saveSession(user)\<close> or \<^verbatim>\<open>updateActivity()\<close>
  the stored record has \<^verbatim>\<open>expiresAt == lastActivity + TIMEOUT_DURATION\<close> and
  \<^verbatim>\<open>loginTime <= lastActivity <= expiresAt\<close>. \<^verbatim>\<open>updateActivity()\<close> keeps the
  \<^verbatim>\<open>loginTime\<close> it read: a record whose \<^verbatim>\<open>loginTime\<close> is 5000, renewed when the clock
  reads 1000, is written back with \<^verbatim>\<open>loginTime\<close> 5000 and \<^verbatim>\<open>lastActivity\<close> 1000.
\<close>

theorem write_invariant_counterexample:
  "stored_record
     (state_of (updateActivity 1000 1000
        (holding (Encoded (DObj \<lparr>user = Some (JObj [(''id'', JNum 1)]), loginTime = Some 5000,
                                  lastActivity = Some 5000, expiresAt = Some 905000\<rparr>)))))
   = Some \<lparr>user = Some (JObj [(''id'', JNum 1)]), loginTime = Some 5000,
           lastActivity = Some 1000, expiresAt = Some 901000\<rparr>
   \<and> \<not> ordered \<lparr>user = Some (JObj [(''id'', JNum 1)]), loginTime = Some 5000,
                  lastActivity = Some 1000, expiresAt = Some 901000\<rparr>"
  by code_simp

text \<open>
  C6, amended. After every write by \<^verbatim>\<open>saveSession(user)\<close> the stored record has
  \<^verbatim>\<open>expiresAt == lastActivity + TIMEOUT_DURATION\<close> and
  \<^verbatim>\<open>loginTime <= lastActivity <= expiresAt\<close>. After every write of a record by
  \<^verbatim>\<open>updateActivity()\<close> the stored record is the one read, with \<^verbatim>\<open>lastActivity\<close> the
  clock reading and \<^verbatim>\<open>expiresAt\<close> that reading plus \<^verbatim>\<open>TIMEOUT_DURATION\<close>; so
  \<^verbatim>\<open>lastActivity <= expiresAt\<close>, and \<^verbatim>\<open>loginTime <= lastActivity\<close> exactly when the
  record read has a \<^verbatim>\<open>loginTime\<close> that is not after the clock reading.
\<close>

theorem write_invariant:
  "(\<exists>r'. stored_record (state_of (saveSession now u s)) = Some r'
         \<and> deadline_ok r' \<and> ordered r')
   \<and> (store s = Some (Encoded (DObj r)) \<and> \<not> js_gt now1 (expiresAt r) \<longrightarrow>
        stored_record (state_of (updateActivity now1 now2 s))
          = Some (r\<lparr>lastActivity := Some now2, expiresAt := Some (now2 + TIMEOUT_DURATION)\<rparr>)
        \<and> deadline_ok (r\<lparr>lastActivity := Some now2, expiresAt := Some (now2 + TIMEOUT_DURATION)\<rparr>)
        \<and> now2 \<le> now2 + TIMEOUT_DURATION
        \<and> ordered (r\<lparr>lastActivity := Some now2, expiresAt := Some (now2 + TIMEOUT_DURATION)\<rparr>)
            = (case loginTime r of None \<Rightarrow> False | Some l \<Rightarrow> l \<le> now2))"
proof -
  have save: "\<exists>r'. stored_record (state_of (saveSession now u s)) = Some r'
      \<and> deadline_ok r' \<and> ordered r'"
    by (simp add: saveSession_state startActivityTimer_fields stored_record_def deadline_ok_def
        ordered_def TIMEOUT_DURATION_def)
  have renew: "stored_record (state_of (updateActivity now1 now2 s))
          = Some (r\<lparr>lastActivity := Some now2, expiresAt := Some (now2 + TIMEOUT_DURATION)\<rparr>)"
    if "store s = Some (Encoded (DObj r))" and "\<not> js_gt now1 (expiresAt r)"
    using that by (simp add: updateActivity_valid startActivityTimer_fields stored_record_def)
  have deadline: "deadline_ok (r\<lparr>lastActivity := Some now2, expiresAt := Some (now2 + TIMEOUT_DURATION)\<rparr>)"
    by (simp add: deadline_ok_def)
  have later: "now2 \<le> now2 + TIMEOUT_DURATION"
    by (simp add: TIMEOUT_DURATION_def)
  have login: "ordered (r\<lparr>lastActivity := Some now2, expiresAt := Some (now2 + TIMEOUT_DURATION)\<rparr>)
            = (case loginTime r of None \<Rightarrow> False | Some l \<Rightarrow> l \<le> now2)"
    by (simp add: ordered_def TIMEOUT_DURATION_def split: option.splits)
  from save renew deadline later login show ?thesis by blast
qed

theorem write_invariant_witness:
  "stored_record (state_of (updateActivity 500000 500000 after_login))
     = Some \<lparr>user = Some (JObj [(''id'', JNum 1)]), loginTime = Some 0,
             lastActivity = Some 500000, expiresAt = Some 1400000\<rparr>
   \<and> ordered \<lparr>user = Some (JObj [(''id'', JNum 1)]), loginTime = Some 0,
               lastActivity = Some 500000, expiresAt = Some 1400000\<rparr>
   \<and> deadline_ok \<lparr>user = Some (JObj [(''id'', JNum 1)]), loginTime = Some 0,
               lastActivity = Some 500000, expiresAt = Some 1400000\<rparr>"
proof -
  have held: "store after_login
      = Some (Encoded (DObj \<lparr>user = Some (JObj [(''id'', JNum 1)]), loginTime = Some 0,
                              lastActivity = Some 0, expiresAt = Some 900000\<rparr>))"
    by (simp add: after_login_def saveSession_state startActivityTimer_fields TIMEOUT_DURATION_def)
  show ?thesis
    using write_invariant
      [where now = 0 and u = None and s = after_login
         and r = "\<lparr>user = Some (JObj [(''id'', JNum 1)]), loginTime = Some 0,
                   lastActivity = Some 0, expiresAt = Some 900000\<rparr>"
         and ?now1.0 = 500000 and ?now2.0 = 500000]
      held
    by (simp add: TIMEOUT_DURATION_def)
qed

subsection \<open>C7: renewal at a fixed instant\<close>

text \<open>
  C7. For every state with a valid stored record, calling \<^verbatim>\<open>updateActivity()\<close> twice
  in the same millisecond leaves the same stored \<^verbatim>\<open>expiresAt\<close>, and indeed the same
  state, as calling it once.
\<close>

theorem updateActivity_idempotent:
  assumes "store s = Some (Encoded (DObj r))" and "expiresAt r = Some e" and "now \<le> e"
  shows "updateActivity now now (state_of (updateActivity now now s)) = updateActivity now now s
   \<and> stored_record (state_of (updateActivity now now s))
       = Some (r\<lparr>lastActivity := Some now, expiresAt := Some (now + TIMEOUT_DURATION)\<rparr>)"
proof -
  let ?r = "r\<lparr>lastActivity := Some now, expiresAt := Some (now + TIMEOUT_DURATION)\<rparr>"
  let ?s = "startActivityTimer now (s\<lparr>store := Some (Encoded (DObj ?r))\<rparr>)"
  have valid: "\<not> js_gt now (expiresAt r)"
    using assms by simp
  have once: "updateActivity now now s = Returned () ?s"
    using assms(1) valid by (rule updateActivity_valid)
  have held: "store ?s = Some (Encoded (DObj ?r))"
    by (simp add: startActivityTimer_fields)
  have still: "\<not> js_gt now (expiresAt ?r)"
    by (simp add: TIMEOUT_DURATION_def)
  have "updateActivity now now ?s
      = Returned () (startActivityTimer now (?s\<lparr>store := Some (Encoded (DObj
          (?r\<lparr>lastActivity := Some now, expiresAt := Some (now + TIMEOUT_DURATION)\<rparr>)))\<rparr>))"
    using held still by (rule updateActivity_valid)
  also have "\<dots> = Returned () ?s"
    by (simp add: startActivityTimer_def stopActivityTimer_def)
  finally have twice: "updateActivity now now ?s = Returned () ?s" .
  show ?thesis
    using once twice held by (simp add: stored_record_def)
qed

theorem updateActivity_idempotent_witness:
  "updateActivity 500000 500000 (state_of (updateActivity 500000 500000 after_login))
     = updateActivity 500000 500000 after_login
   \<and> stored_record (state_of (updateActivity 500000 500000 after_login))
     = Some \<lparr>user = Some (JObj [(''id'', JNum 1)]), loginTime = Some 0,
             lastActivity = Some 500000, expiresAt = Some 1400000\<rparr>"
proof -
  have held: "store after_login
      = Some (Encoded (DObj \<lparr>user = Some (JObj [(''id'', JNum 1)]), loginTime = Some 0,
                              lastActivity = Some 0, expiresAt = Some 900000\<rparr>))"
    by (simp add: after_login_def saveSession_state startActivityTimer_fields TIMEOUT_DURATION_def)
  show ?thesis
    using updateActivity_idempotent [OF held, of 900000 500000]
    by (simp add: TIMEOUT_DURATION_def)
qed

subsection \<open>C8: the minutes remaining\<close>

text \<open>
  C8. With a valid record in the store, \<^verbatim>\<open>getTimeRemaining()\<close> returns
  \<^verbatim>\<open>max(0, floor((expiresAt - now) / 60000))\<close>, \<open>now\<close> being the clock reading of its
  subtraction, where \<^verbatim>\<open>expiresAt - now\<close> is below \<open>2^53\<close> in magnitude (beyond that
  the doubles of the code round). It returns 0 when there is no session: when the
  store has no entry, when the stored record has expired (and is purged by the
  read), and whenever \<^verbatim>\<open>getSession()\<close> returns \<^verbatim>\<open>null\<close>.
\<close>

theorem getTimeRemaining_minutes:
  "(store s = Some (Encoded (DObj r)) \<and> expiresAt r = Some e \<and> now1 \<le> e
      \<and> \<bar>e - now2\<bar> < 2 ^ 53 \<longrightarrow>
      getTimeRemaining now1 now2 s = Returned (Num (max 0 ((e - now2) div 60000))) s)
   \<and> (store s = None \<longrightarrow> getTimeRemaining now1 now2 s = Returned (Num 0) s)
   \<and> (store s = Some (Encoded (DObj r)) \<and> expiresAt r = Some e \<and> e < now1 \<longrightarrow>
        getTimeRemaining now1 now2 s = Returned (Num 0) (clearSession s)
        \<and> store (clearSession s) = None)
   \<and> (getSession now1 s = Returned DNull s' \<longrightarrow>
        getTimeRemaining now1 now2 s = Returned (Num 0) s')"
proof -
  have valid: "getTimeRemaining now1 now2 s = Returned (Num (max 0 ((e - now2) div 60000))) s"
    if "store s = Some (Encoded (DObj r))" and "expiresAt r = Some e" and "now1 \<le> e"
      and "\<bar>e - now2\<bar> < 2 ^ 53"
  proof -
    have "getSession now1 s = Returned (DObj r) s"
      using that by (simp add: getSession_valid)
    then show ?thesis
      using that(2,4) by (simp add: getTimeRemaining_def exact_def)
  qed
  have absent: "getTimeRemaining now1 now2 s = Returned (Num 0) s'"
    if "getSession now1 s = Returned DNull s'" for s'
    using that by (simp add: getTimeRemaining_def)
  have none: "getTimeRemaining now1 now2 s = Returned (Num 0) s" if "store s = None"
    using that by (simp add: absent getSession_no_entry)
  have expired: "getTimeRemaining now1 now2 s = Returned (Num 0) (clearSession s)"
    if "store s = Some (Encoded (DObj r))" and "expiresAt r = Some e" and "e < now1"
    using that by (simp add: absent getSession_expired)
  from valid absent none expired clearSession_store [of s] show ?thesis by blast
qed

theorem getTimeRemaining_minutes_witness:
  "getTimeRemaining 500000 500000 after_login = Returned (Num 6) after_login
   \<and> getTimeRemaining 899999 900001 after_login = Returned (Num 0) after_login
   \<and> getTimeRemaining 0 0 fresh = Returned (Num 0) fresh
   \<and> getTimeRemaining 900001 900001 after_login = Returned (Num 0) (clearSession after_login)"
proof -
  have held: "store after_login
      = Some (Encoded (DObj \<lparr>user = Some (JObj [(''id'', JNum 1)]), loginTime = Some 0,
                              lastActivity = Some 0, expiresAt = Some 900000\<rparr>))"
    by (simp add: after_login_def saveSession_state startActivityTimer_fields TIMEOUT_DURATION_def)
  have empty: "store fresh = None"
    by (simp add: fresh_def)
  have absent: "getSession 0 fresh = Returned DNull fresh"
    using empty by (rule getSession_no_entry)
  show ?thesis
    using getTimeRemaining_minutes
        [where s = after_login and e = 900000 and ?now1.0 = 500000 and ?now2.0 = 500000
           and r = "\<lparr>user = Some (JObj [(''id'', JNum 1)]), loginTime = Some 0,
                     lastActivity = Some 0, expiresAt = Some 900000\<rparr>"]
      getTimeRemaining_minutes
        [where s = after_login and e = 900000 and ?now1.0 = 899999 and ?now2.0 = 900001
           and r = "\<lparr>user = Some (JObj [(''id'', JNum 1)]), loginTime = Some 0,
                     lastActivity = Some 0, expiresAt = Some 900000\<rparr>"]
      getTimeRemaining_minutes [where s = fresh and s' = fresh and ?now1.0 = 0 and ?now2.0 = 0]
      getTimeRemaining_minutes
        [where s = after_login and e = 900000 and ?now1.0 = 900001 and ?now2.0 = 900001
           and r = "\<lparr>user = Some (JObj [(''id'', JNum 1)]), loginTime = Some 0,
                     lastActivity = Some 0, expiresAt = Some 900000\<rparr>"]
      held empty absent
    by simp
qed

subsection \<open>C9: the current user\<close>

text \<open>
  C9, as stated: for every valid stored record \<^verbatim>\<open>getCurrentUser()\<close> returns exactly
  the \<^verbatim>\<open>user\<close> field, whatever value it holds, and returns \<^verbatim>\<open>null\<close> only when no
  valid record exists. The code returns \<^verbatim>\<open>session?.user || null\<close>: a falsy \<^verbatim>\<open>user\<close>,
  such as \<^verbatim>\<open>0\<close> or \<^verbatim>\<open>false\<close>, in a valid record is returned as \<^verbatim>\<open>null\<close>.
\<close>

theorem getCurrentUser_counterexample:
  "getCurrentUser 1000
     (holding (Encoded (DObj \<lparr>user = Some (JNum 0), loginTime = Some 0, lastActivity = Some 0,
                               expiresAt = Some 900000\<rparr>)))
   = Returned JNull
       (holding (Encoded (DObj \<lparr>user = Some (JNum 0), loginTime = Some 0, lastActivity = Some 0,
                                 expiresAt = Some 900000\<rparr>)))
   \<and> getCurrentUser 1000
     (holding (Encoded (DObj \<lparr>user = Some (JBool False), loginTime = Some 0,
                               lastActivity = Some 0, expiresAt = Some 900000\<rparr>)))
   = Returned JNull
       (holding (Encoded (DObj \<lparr>user = Some (JBool False), loginTime = Some 0,
                                 lastActivity = Some 0, expiresAt = Some 900000\<rparr>)))"
  by (simp add: getCurrentUser_def getSession_def getSession_try_def holding_def fresh_def)

text \<open>
  C9, amended. For every valid stored record \<^verbatim>\<open>getCurrentUser()\<close> returns exactly
  the \<^verbatim>\<open>user\<close> field when that value is truthy, and \<^verbatim>\<open>null\<close> when the field is
  missing or falsy (\<^verbatim>\<open>null\<close>, \<^verbatim>\<open>false\<close>, \<^verbatim>\<open>0\<close>, the empty string). It returns
  \<^verbatim>\<open>null\<close> whenever \<^verbatim>\<open>getSession()\<close> returns \<^verbatim>\<open>null\<close>: on no entry, the empty
  string, a text that \<^verbatim>\<open>JSON.parse\<close> rejects, the text \<^verbatim>\<open>null\<close>, an expired record.
  It returns \<^verbatim>\<open>null\<close> also when the stored text encodes a scalar or an array. On a
  stored object without \<^verbatim>\<open>expiresAt\<close>, which \<^verbatim>\<open>getSession()\<close> returns as the
  session, it treats the \<^verbatim>\<open>user\<close> field as it does that of a valid record. The
  last clause of the statement gives the result for every content of the store.
\<close>

theorem getCurrentUser_truthy:
  "(store s = Some (Encoded (DObj r)) \<and> expiresAt r = Some e \<and> now \<le> e \<longrightarrow>
      (case user r of
         None \<Rightarrow> getCurrentUser now s = Returned JNull s
       | Some u \<Rightarrow> getCurrentUser now s = Returned (if truthy_val u then u else JNull) s))
   \<and> (getSession now s = Returned DNull s' \<longrightarrow> getCurrentUser now s = Returned JNull s')
   \<and> getCurrentUser now s =
       (case store s of
          None \<Rightarrow> Returned JNull s
        | Some Empty \<Rightarrow> Returned JNull s
        | Some Malformed \<Rightarrow> Returned JNull (clearSession s)
        | Some (Encoded DNull) \<Rightarrow> Returned JNull (clearSession s)
        | Some (Encoded (DBool b)) \<Rightarrow> Returned JNull s
        | Some (Encoded (DNum n)) \<Rightarrow> Returned JNull s
        | Some (Encoded (DStr t)) \<Rightarrow> Returned JNull s
        | Some (Encoded (DArr xs)) \<Rightarrow> Returned JNull s
        | Some (Encoded (DObj r')) \<Rightarrow>
            if js_gt now (expiresAt r') then Returned JNull (clearSession s)
            else Returned
                   (case user r' of
                      None \<Rightarrow> JNull
                    | Some u \<Rightarrow> if truthy_val u then u else JNull) s)"
proof -
  have valid: "getCurrentUser now s = Returned (or_null (user r)) s"
    if "store s = Some (Encoded (DObj r))" and "expiresAt r = Some e" and "now \<le> e"
  proof -
    have "getSession now s = Returned (DObj r) s"
      using that by (simp add: getSession_valid)
    then show ?thesis by (simp add: getCurrentUser_def)
  qed
  have absent: "getCurrentUser now s = Returned JNull s'"
    if "getSession now s = Returned DNull s'"
    using that by (simp add: getCurrentUser_def)
  have every: "getCurrentUser now s =
       (case store s of
          None \<Rightarrow> Returned JNull s
        | Some Empty \<Rightarrow> Returned JNull s
        | Some Malformed \<Rightarrow> Returned JNull (clearSession s)
        | Some (Encoded DNull) \<Rightarrow> Returned JNull (clearSession s)
        | Some (Encoded (DBool b)) \<Rightarrow> Returned JNull s
        | Some (Encoded (DNum n)) \<Rightarrow> Returned JNull s
        | Some (Encoded (DStr t)) \<Rightarrow> Returned JNull s
        | Some (Encoded (DArr xs)) \<Rightarrow> Returned JNull s
        | Some (Encoded (DObj r')) \<Rightarrow>
            if js_gt now (expiresAt r') then Returned JNull (clearSession s)
            else Returned
                   (case user r' of
                      None \<Rightarrow> JNull
                    | Some u \<Rightarrow> if truthy_val u then u else JNull) s)"
  proof (cases "store s")
    case None
    then show ?thesis by (simp add: getCurrentUser_def getSession_def getSession_try_def)
  next
    case (Some p)
    show ?thesis
    proof (cases p)
      case Empty
      with Some show ?thesis by (simp add: getCurrentUser_def getSession_def getSession_try_def)
    next
      case Malformed
      with Some show ?thesis by (simp add: getCurrentUser_def getSession_def getSession_try_def)
    next
      case (Encoded d)
      with Some show ?thesis
        by (cases d)
          (simp_all add: getCurrentUser_def getSession_def getSession_try_def
            split: option.splits)
    qed
  qed
  have first: "store s = Some (Encoded (DObj r)) \<and> expiresAt r = Some e \<and> now \<le> e \<longrightarrow>
      (case user r of
         None \<Rightarrow> getCurrentUser now s = Returned JNull s
       | Some u \<Rightarrow> getCurrentUser now s = Returned (if truthy_val u then u else JNull) s)"
    using valid by (auto split: option.splits)
  have second: "getSession now s = Returned DNull s' \<longrightarrow> getCurrentUser now s = Returned JNull s'"
    using absent by simp
  from first second every show ?thesis by (intro conjI)
qed

theorem getCurrentUser_truthy_witness:
  "getCurrentUser 500000 after_login = Returned (JObj [(''id'', JNum 1)]) after_login
   \<and> getCurrentUser 0 fresh = Returned JNull fresh"
proof -
  have held: "store after_login
      = Some (Encoded (DObj \<lparr>user = Some (JObj [(''id'', JNum 1)]), loginTime = Some 0,
                              lastActivity = Some 0, expiresAt = Some 900000\<rparr>))"
    by (simp add: after_login_def saveSession_state startActivityTimer_fields TIMEOUT_DURATION_def)
  have empty: "getSession 0 fresh = Returned DNull fresh"
    by (simp add: getSession_no_entry fresh_def)
  show ?thesis
    using getCurrentUser_truthy
        [where s = after_login and e = 900000 and now = 500000
           and r = "\<lparr>user = Some (JObj [(''id'', JNum 1)]), loginTime = Some 0,
                     lastActivity = Some 0, expiresAt = Some 900000\<rparr>"]
      getCurrentUser_truthy [where s = fresh and now = 0 and s' = fresh]
      held empty
    by simp
qed

subsection \<open>C10: no renewal of an expired session\<close>

text \<open>
  C10. When the store holds a record whose \<^verbatim>\<open>expiresAt\<close> is strictly in the past,
  \<^verbatim>\<open>updateActivity()\<close> removes the record, writes no renewed record, and leaves no
  timeout pending.
\<close>

theorem updateActivity_expired:
  assumes "store s = Some (Encoded (DObj r))" and "expiresAt r = Some e" and "e < now1"
  shows "updateActivity now1 now2 s = Returned () (clearSession s)
   \<and> store (clearSession s) = None
   \<and> activityTimer (clearSession s) = None"
proof -
  have "getSession now1 s = Returned DNull (clearSession s)"
    using assms by (rule getSession_expired)
  then have "updateActivity now1 now2 s = Returned () (clearSession s)"
    by (simp add: updateActivity_def)
  then show ?thesis
    by (simp add: clearSession_store clearSession_timer)
qed

theorem updateActivity_expired_witness:
  "updateActivity 900001 900001 after_login
     = Returned () \<lparr>store = None, activityTimer = None, onSessionExpired = Some 7, fired = []\<rparr>"
proof -
  have held: "store after_login
      = Some (Encoded (DObj \<lparr>user = Some (JObj [(''id'', JNum 1)]), loginTime = Some 0,
                              lastActivity = Some 0, expiresAt = Some 900000\<rparr>))"
    by (simp add: after_login_def saveSession_state startActivityTimer_fields TIMEOUT_DURATION_def)
  show ?thesis
    using updateActivity_expired [OF held, of 900000 900001 900001]
    by (simp add: after_login_def saveSession_state startActivityTimer_def stopActivityTimer_def
        clearSession_def setOnSessionExpired_def fresh_def)
qed

end
